theory Spec2Isabelle
  imports Main "HOL-Library.Sublist" "HOL-Library.AList" "HOL-Library.Multiset"
begin

section \<open>Python strings\<close>

text \<open>
  Text is modelled as \<open>string\<close>, a list of characters with code points below 256.
  \<open>str.upper\<close> and \<open>str.lower\<close> are modelled on ASCII text, where they map the 26
  letters and leave every other character alone; entity types, role names and tokens
  are ASCII identifiers.
\<close>

definition ascii_lowercase :: string where
  "ascii_lowercase = ''abcdefghijklmnopqrstuvwxyz''"

definition ascii_uppercase :: string where
  "ascii_uppercase = ''ABCDEFGHIJKLMNOPQRSTUVWXYZ''"

definition upper_char :: "char \<Rightarrow> char" where
  "upper_char c = (case map_of (zip ascii_lowercase ascii_uppercase) c of None \<Rightarrow> c | Some u \<Rightarrow> u)"

definition lower_char :: "char \<Rightarrow> char" where
  "lower_char c = (case map_of (zip ascii_uppercase ascii_lowercase) c of None \<Rightarrow> c | Some l \<Rightarrow> l)"

definition upper :: "string \<Rightarrow> string" where
  "upper s = map upper_char s"

definition lower :: "string \<Rightarrow> string" where
  "lower s = map lower_char s"

text \<open>\<open>s.startswith(p)\<close> is \<open>prefix p s\<close>; \<open>sub in s\<close> is \<open>str_contains sub s\<close>.\<close>

fun str_contains :: "string \<Rightarrow> string \<Rightarrow> bool" where
  "str_contains sub [] = (sub = [])"
| "str_contains sub (c # cs) = (prefix sub (c # cs) \<or> str_contains sub cs)"

text \<open>
  \<open>s.split(sep)\<close> for a one-character separator: the result is never empty, and
  \<open>''''.split('_')\<close> is \<open>['''']\<close>.
\<close>

fun split :: "char \<Rightarrow> string \<Rightarrow> string list" where
  "split sep [] = [[]]"
| "split sep (c # cs) =
     (if c = sep then [] # split sep cs
      else (case split sep cs of [] \<Rightarrow> [[c]] | p # ps \<Rightarrow> (c # p) # ps))"

text \<open>
  \<open>s.replace(old, new)\<close>: every non-overlapping occurrence of \<open>old\<close>, found from left
  to right, is replaced. For the empty \<open>old\<close> Python inserts \<open>new\<close> before every
  character and at the end.
\<close>

fun replace_from :: "string \<Rightarrow> string \<Rightarrow> string \<Rightarrow> string" where
  "replace_from old new [] = []"
| "replace_from old new (c # cs) =
     (if prefix old (c # cs) then new @ replace_from old new (drop (length old - 1) cs)
      else c # replace_from old new cs)"

definition replace :: "string \<Rightarrow> string \<Rightarrow> string \<Rightarrow> string" where
  "replace old new s =
     (if old = [] then new @ concat (map (\<lambda>c. c # new) s) else replace_from old new s)"

section \<open>tokenizer.py\<close>

text \<open>
  The two dictionaries of a \<open>Tokenizer\<close> are never iterated, so they are maps.
  \<open>token_counter\<close> is set to 0 by the constructor and by \<open>clear_tokens\<close> and never
  read.
\<close>

record tokenizer =
  token_prefix :: string
  token_counter :: int
  entity_tokens :: "string \<rightharpoonup> string"
  token_entities :: "string \<rightharpoonup> string \<times> string"

definition Tokenizer :: "string \<Rightarrow> tokenizer" where
  "Tokenizer prefix' =
     \<lparr>token_prefix = prefix', token_counter = 0,
      entity_tokens = Map.empty, token_entities = Map.empty\<rparr>"

text \<open>
  \<open>generate_token\<close> calls two library functions. They are parameters of the model:
  \<open>sha256\<close> stands for \<open>lambda s: hashlib.sha256(s.encode()).hexdigest()\<close>, and \<open>salt\<close>
  is the string that \<open>secrets.token_hex(8)\<close> returns when this call draws it. The
  function returns the token and the updated tokenizer.
\<close>

definition generate_token ::
  "(string \<Rightarrow> string) \<Rightarrow> string \<Rightarrow> tokenizer \<Rightarrow> string \<Rightarrow> string \<Rightarrow> string \<times> tokenizer" where
  "generate_token sha256 salt tk entity_type entity_value =
     (case entity_tokens tk entity_value of
        Some token \<Rightarrow> (token, tk)
      | None \<Rightarrow>
          (let entity_hash = take 12 (sha256 (entity_type @ '':'' @ entity_value @ '':'' @ salt));
               token = token_prefix tk @ upper entity_type @ ''_'' @ entity_hash
           in (token,
               tk\<lparr>entity_tokens := (entity_tokens tk)(entity_value \<mapsto> token),
                  token_entities := (token_entities tk)(token \<mapsto> (entity_type, entity_value))\<rparr>)))"

definition get_entity_type_from_token :: "tokenizer \<Rightarrow> string \<Rightarrow> string" where
  "get_entity_type_from_token tk token =
     (case token_entities tk token of
        Some (entity_type, entity_value) \<Rightarrow> entity_type
      | None \<Rightarrow>
          (if prefix (token_prefix tk) token then
             (let parts = split (CHR ''_'') (drop (length (token_prefix tk)) token)
              in if length parts \<ge> 2 then lower (hd parts) else ''unknown'')
           else ''unknown''))"

definition get_original_value :: "tokenizer \<Rightarrow> string \<Rightarrow> string" where
  "get_original_value tk token =
     (case token_entities tk token of
        Some (entity_type, entity_value) \<Rightarrow> entity_value
      | None \<Rightarrow> token)"

definition clear_tokens :: "tokenizer \<Rightarrow> tokenizer" where
  "clear_tokens tk =
     tk\<lparr>entity_tokens := Map.empty, token_entities := Map.empty, token_counter := 0\<rparr>"

section \<open>roles.py\<close>

text \<open>
  A role entry is a dictionary with the keys \<open>allowed_entities\<close>, \<open>can_restore\<close> and
  \<open>description\<close>. Entries loaded from a configuration may lack a key:
  \<open>get_allowed_entities\<close> then raises \<open>KeyError\<close>, the other two readers fall back to a
  default through \<open>dict.get\<close>.
\<close>

datatype py_error = KeyError string

record role =
  allowed_entities :: "string list option"
  can_restore_flag :: "bool option"
  description :: "string option"

record role_manager =
  roles :: "string \<rightharpoonup> role"

definition mk_role :: "string list \<Rightarrow> bool \<Rightarrow> string \<Rightarrow> role" where
  "mk_role allowed restore descr =
     \<lparr>allowed_entities = Some allowed, can_restore_flag = Some restore, description = Some descr\<rparr>"

definition load_default_roles :: "string \<rightharpoonup> role" where
  "load_default_roles =
     [''public'' \<mapsto> mk_role [] False ''Public audience - no sensitive data visible'',
      ''internal'' \<mapsto> mk_role [''name''] False
         ''Internal team - names visible but other data redacted'',
      ''manager'' \<mapsto> mk_role [''name'', ''email''] True
         ''Management level - names and emails visible'',
      ''admin'' \<mapsto> mk_role [''name'', ''email'', ''phone'', ''ip_address''] True
         ''Admin level - most entities visible except highly sensitive'',
      ''security'' \<mapsto>
         mk_role [''name'', ''email'', ''phone'', ''ip_address'', ''ssn'', ''credit_card''] True
         ''Security team - all entities visible'']"

definition RoleManager :: role_manager where
  "RoleManager = \<lparr>roles = load_default_roles\<rparr>"

definition load_roles :: "role_manager \<Rightarrow> (string \<times> role) list \<Rightarrow> role_manager" where
  "load_roles rm roles_config = rm\<lparr>roles := fold (\<lambda>(k, v) m. m(k \<mapsto> v)) roles_config (roles rm)\<rparr>"

definition add_role :: "role_manager \<Rightarrow> string \<Rightarrow> string list \<Rightarrow> bool \<Rightarrow> string \<Rightarrow> role_manager" where
  "add_role rm role_name allowed restore descr =
     rm\<lparr>roles := (roles rm)(role_name \<mapsto> mk_role allowed restore descr)\<rparr>"

definition get_allowed_entities :: "role_manager \<Rightarrow> string \<Rightarrow> py_error + string set" where
  "get_allowed_entities rm role_name =
     (case roles rm role_name of
        None \<Rightarrow> Inr {}
      | Some r \<Rightarrow>
          (case allowed_entities r of
             None \<Rightarrow> Inl (KeyError ''allowed_entities'')
           | Some es \<Rightarrow> Inr (set es)))"

definition can_restore :: "role_manager \<Rightarrow> string \<Rightarrow> bool" where
  "can_restore rm role_name =
     (case roles rm role_name of
        None \<Rightarrow> False
      | Some r \<Rightarrow> (case can_restore_flag r of None \<Rightarrow> False | Some b \<Rightarrow> b))"

definition role_levels :: "string \<rightharpoonup> int" where
  "role_levels =
     [''public'' \<mapsto> 0, ''internal'' \<mapsto> 1, ''manager'' \<mapsto> 2, ''admin'' \<mapsto> 3, ''security'' \<mapsto> 4]"

definition dict_get :: "('k \<rightharpoonup> 'v) \<Rightarrow> 'k \<Rightarrow> 'v \<Rightarrow> 'v" where
  "dict_get d k dflt = (case d k of None \<Rightarrow> dflt | Some v \<Rightarrow> v)"

definition role_hierarchy_check :: "string \<Rightarrow> string \<Rightarrow> bool" where
  "role_hierarchy_check requester_role target_role =
     (let requester_level = dict_get role_levels requester_role (- 1);
          target_level = dict_get role_levels target_role 0
      in requester_level \<ge> target_level)"

section \<open>The regular expressions of core.py\<close>

text \<open>
  \<open>re.findall\<close> is modelled for the fragment of the pattern language that the built-in
  patterns use: a pattern is a sequence of items, each either the assertion \<open>\b\<close> or a
  character class with a greedy repetition (at least \<open>m\<close>, at most \<open>n\<close> times, \<open>None\<close>
  for no upper bound). A class is a list of inclusive character ranges. Characters are
  the code points below 256, and \<open>\w\<close>, \<open>\s\<close> and \<open>\d\<close> are what Python's \<open>re\<close>
  matches among them for a \<open>str\<close> pattern.
\<close>

type_synonym char_class = "(char \<times> char) list"

datatype item = WordBoundary | Chars char_class nat "nat option"

type_synonym regex = "item list"

definition in_class :: "char_class \<Rightarrow> char \<Rightarrow> bool" where
  "in_class rs c =
     list_ex (\<lambda>(lo, hi). (of_char lo :: nat) \<le> of_char c \<and> (of_char c :: nat) \<le> of_char hi) rs"

definition digit :: char_class where
  "digit = [(CHR ''0'', CHR ''9'')]"

definition space :: char_class where
  "space = [(char_of (9 :: nat), char_of (13 :: nat)), (char_of (28 :: nat), char_of (32 :: nat)),
            (char_of (133 :: nat), char_of (133 :: nat)), (char_of (160 :: nat), char_of (160 :: nat))]"

definition word :: char_class where
  "word = [(CHR ''0'', CHR ''9''), (CHR ''A'', CHR ''Z''), (CHR ''_'', CHR ''_''),
           (CHR ''a'', CHR ''z''), (char_of (170 :: nat), char_of (170 :: nat)),
           (char_of (178 :: nat), char_of (179 :: nat)), (char_of (181 :: nat), char_of (181 :: nat)),
           (char_of (185 :: nat), char_of (186 :: nat)), (char_of (188 :: nat), char_of (190 :: nat)),
           (char_of (192 :: nat), char_of (214 :: nat)), (char_of (216 :: nat), char_of (246 :: nat)),
           (char_of (248 :: nat), char_of (255 :: nat))]"

text \<open>\<open>\b\<close> holds between a word character and a non-word character or an end of the text.\<close>

definition at_boundary :: "char option \<Rightarrow> string \<Rightarrow> bool" where
  "at_boundary prev s =
     ((case prev of None \<Rightarrow> False | Some c \<Rightarrow> in_class word c) \<noteq>
      (case s of [] \<Rightarrow> False | c # cs \<Rightarrow> in_class word c))"

text \<open>
  The backtracking matcher. \<open>match_items is adv n prev s\<close> matches the items \<open>is\<close> at the
  front of \<open>s\<close>, where \<open>prev\<close> is the character before \<open>s\<close> and \<open>n\<close> characters of this
  match have been consumed already; it returns the length of the first match in the
  engine's order of preference (a greedy repetition tries the longest run first and gives
  characters back one at a time). With \<open>adv\<close> set an empty match is refused, as the
  engine does right after an empty match at the same position.
\<close>

fun match_items :: "item list \<Rightarrow> bool \<Rightarrow> nat \<Rightarrow> char option \<Rightarrow> string \<Rightarrow> nat option"
  and try_reps :: "item list \<Rightarrow> bool \<Rightarrow> nat \<Rightarrow> char option \<Rightarrow> string \<Rightarrow> nat \<Rightarrow> nat \<Rightarrow> nat option"
where
  "match_items [] adv n prev s = (if adv \<and> n = 0 then None else Some n)"
| "match_items (WordBoundary # items) adv n prev s =
     (if at_boundary prev s then match_items items adv n prev s else None)"
| "match_items (Chars cls lo hi # items) adv n prev s =
     (let run = length (takeWhile (in_class cls) s);
          most = (case hi of None \<Rightarrow> run | Some h \<Rightarrow> min run h)
      in try_reps items adv n prev s most lo)"
| "try_reps items adv n prev s k lo =
     (if k < lo then None
      else (case match_items items adv (n + k)
                   (if k = 0 then prev else Some (last (take k s))) (drop k s) of
              Some r \<Rightarrow> Some r
            | None \<Rightarrow> (if k = 0 then None else try_reps items adv n prev s (k - 1) lo)))"

text \<open>
  \<open>re.findall(pattern, text)\<close> for a pattern without groups: the matches from left to
  right, each search starting where the previous match ended.
\<close>

function findall_from :: "regex \<Rightarrow> bool \<Rightarrow> char option \<Rightarrow> string \<Rightarrow> string list" where
  "findall_from r adv prev [] =
     (case match_items r adv 0 prev [] of None \<Rightarrow> [] | Some n \<Rightarrow> [[]])"
| "findall_from r adv prev (c # cs) =
     (case match_items r adv 0 prev (c # cs) of
        None \<Rightarrow> findall_from r False (Some c) cs
      | Some 0 \<Rightarrow> (if adv then findall_from r False (Some c) cs
                   else [] # findall_from r True prev (c # cs))
      | Some (Suc k) \<Rightarrow>
          take (Suc k) (c # cs) #
          findall_from r False (Some (last (take (Suc k) (c # cs)))) (drop k cs))"
  by pat_completeness auto
termination
  by (relation "measures [\<lambda>(r, adv, prev, s). length s, \<lambda>(r, adv, prev, s). if adv then 0 else 1]")
     auto

definition findall :: "regex \<Rightarrow> string \<Rightarrow> string list" where
  "findall r text = findall_from r False None text"

definition lit :: "char \<Rightarrow> item" where
  "lit c = Chars [(c, c)] 1 (Some 1)"

definition email_pattern :: regex where
  \<comment> \<open>\<^verbatim>\<open>\b[A-Za-z0-9._%+-]+@[A-Za-z0-9.-]+\.[A-Z|a-z]{2,}\b\<close>\<close>
  "email_pattern =
     [WordBoundary,
      Chars [(CHR ''A'', CHR ''Z''), (CHR ''a'', CHR ''z''), (CHR ''0'', CHR ''9''),
             (CHR ''.'', CHR ''.''), (CHR ''_'', CHR ''_''), (CHR ''%'', CHR ''%''),
             (CHR ''+'', CHR ''+''), (CHR ''-'', CHR ''-'')] 1 None,
      lit (CHR ''@''),
      Chars [(CHR ''A'', CHR ''Z''), (CHR ''a'', CHR ''z''), (CHR ''0'', CHR ''9''),
             (CHR ''.'', CHR ''.''), (CHR ''-'', CHR ''-'')] 1 None,
      lit (CHR ''.''),
      Chars [(CHR ''A'', CHR ''Z''), (CHR ''|'', CHR ''|''), (CHR ''a'', CHR ''z'')] 2 None,
      WordBoundary]"

definition phone_pattern :: regex where
  \<comment> \<open>\<^verbatim>\<open>\b\d{3}[-.]?\d{3}[-.]?\d{4}\b\<close>\<close>
  "phone_pattern =
     [WordBoundary, Chars digit 3 (Some 3),
      Chars [(CHR ''-'', CHR ''-''), (CHR ''.'', CHR ''.'')] 0 (Some 1), Chars digit 3 (Some 3),
      Chars [(CHR ''-'', CHR ''-''), (CHR ''.'', CHR ''.'')] 0 (Some 1), Chars digit 4 (Some 4),
      WordBoundary]"

definition ssn_pattern :: regex where
  \<comment> \<open>\<^verbatim>\<open>\b\d{3}-?\d{2}-?\d{4}\b\<close>\<close>
  "ssn_pattern =
     [WordBoundary, Chars digit 3 (Some 3), Chars [(CHR ''-'', CHR ''-'')] 0 (Some 1),
      Chars digit 2 (Some 2), Chars [(CHR ''-'', CHR ''-'')] 0 (Some 1), Chars digit 4 (Some 4),
      WordBoundary]"

definition credit_card_pattern :: regex where
  \<comment> \<open>\<^verbatim>\<open>\b\d{4}[\s-]?\d{4}[\s-]?\d{4}[\s-]?\d{4}\b\<close>\<close>
  "credit_card_pattern =
     [WordBoundary, Chars digit 4 (Some 4),
      Chars (space @ [(CHR ''-'', CHR ''-'')]) 0 (Some 1), Chars digit 4 (Some 4),
      Chars (space @ [(CHR ''-'', CHR ''-'')]) 0 (Some 1), Chars digit 4 (Some 4),
      Chars (space @ [(CHR ''-'', CHR ''-'')]) 0 (Some 1), Chars digit 4 (Some 4),
      WordBoundary]"

definition ip_address_pattern :: regex where
  \<comment> \<open>\<^verbatim>\<open>\b\d{1,3}\.\d{1,3}\.\d{1,3}\.\d{1,3}\b\<close>\<close>
  "ip_address_pattern =
     [WordBoundary, Chars digit 1 (Some 3), lit (CHR ''.''), Chars digit 1 (Some 3),
      lit (CHR ''.''), Chars digit 1 (Some 3), lit (CHR ''.''), Chars digit 1 (Some 3),
      WordBoundary]"

definition name_pattern :: regex where
  \<comment> \<open>\<^verbatim>\<open>\b[A-Z][a-z]+ [A-Z][a-z]+\b\<close>\<close>
  "name_pattern =
     [WordBoundary, Chars [(CHR ''A'', CHR ''Z'')] 1 (Some 1), Chars [(CHR ''a'', CHR ''z'')] 1 None,
      lit (CHR '' ''),
      Chars [(CHR ''A'', CHR ''Z'')] 1 (Some 1), Chars [(CHR ''a'', CHR ''z'')] 1 None,
      WordBoundary]"

section \<open>core.py\<close>

text \<open>
  Dictionaries that the code iterates are association lists in insertion order
  (\<open>AList.update\<close> overwrites in place or appends, as a dictionary assignment does).
\<close>

record safe_disclosure =
  tokenizer :: tokenizer
  role_manager :: role_manager
  entity_patterns :: "(string \<times> regex) list"

definition load_default_patterns :: "(string \<times> regex) list" where
  "load_default_patterns =
     [(''email'', email_pattern), (''phone'', phone_pattern), (''ssn'', ssn_pattern),
      (''credit_card'', credit_card_pattern), (''ip_address'', ip_address_pattern),
      (''name'', name_pattern)]"

definition SafeDisclosure :: safe_disclosure where
  "SafeDisclosure =
     \<lparr>tokenizer = Tokenizer ''TOKEN_'', role_manager = RoleManager,
      entity_patterns = load_default_patterns\<rparr>"

text \<open>
  A Python \<open>set\<close> of strings is a duplicate-free list in the order in which the set is
  iterated. That order depends on the string hashes of the process, so it is a
  parameter \<open>ord\<close> of the model: \<open>py_set ord xs\<close> is \<open>set(xs)\<close>, and \<open>ord\<close> may be any
  function that permutes its argument (\<open>set_order\<close>).
\<close>

definition py_set :: "(string list \<Rightarrow> string list) \<Rightarrow> string list \<Rightarrow> string list" where
  "py_set ord xs = ord (remdups xs)"

definition set_order :: "(string list \<Rightarrow> string list) \<Rightarrow> bool" where
  "set_order ord = (\<forall>xs. mset (ord xs) = mset xs)"

text \<open>
  \<open>_find_entities\<close>. The parameter \<open>fa\<close> stands for \<open>re.findall\<close>; \<open>custom_entities\<close> is
  \<open>None\<close> or a dictionary from entity type to a list of values.
\<close>

definition find_pattern_entities ::
  "(regex \<Rightarrow> string \<Rightarrow> string list) \<Rightarrow> (string list \<Rightarrow> string list) \<Rightarrow> string \<Rightarrow>
   (string \<times> regex) list \<Rightarrow> (string \<times> string list) list \<Rightarrow> (string \<times> string list) list" where
  "find_pattern_entities fa ord text patterns entities_found =
     fold (\<lambda>(entity_type, pattern) found.
             (let matches = py_set ord (fa pattern text)
              in if matches \<noteq> [] then AList.update entity_type matches found else found))
          patterns entities_found"

definition find_custom_entities ::
  "(string list \<Rightarrow> string list) \<Rightarrow> string \<Rightarrow> (string \<times> string list) list \<Rightarrow>
   (string \<times> string list) list \<Rightarrow> (string \<times> string list) list" where
  "find_custom_entities ord text custom entities_found =
     fold (\<lambda>(entity_type, entity_list) found.
             (let found_custom = py_set ord (filter (\<lambda>entity. str_contains entity text) entity_list)
              in if found_custom \<noteq> [] then
                   AList.update entity_type
                     (py_set ord ((case map_of found entity_type of None \<Rightarrow> [] | Some ms \<Rightarrow> ms)
                                  @ found_custom))
                     found
                 else found))
          custom entities_found"

definition find_entities ::
  "(regex \<Rightarrow> string \<Rightarrow> string list) \<Rightarrow> (string list \<Rightarrow> string list) \<Rightarrow> safe_disclosure \<Rightarrow>
   string \<Rightarrow> (string \<times> string list) list option \<Rightarrow> (string \<times> string list) list" where
  "find_entities fa ord sd text custom_entities =
     (let entities_found = find_pattern_entities fa ord text (entity_patterns sd) []
      in case custom_entities of
           None \<Rightarrow> entities_found
         | Some custom \<Rightarrow>
             (if custom = [] then entities_found
              else find_custom_entities ord text custom entities_found))"

text \<open>
  \<open>redact_document\<close>. The loop state holds the tokenizer, the two locals
  \<open>redacted_text\<close> and \<open>token_mapping\<close>, and the number of \<open>generate_token\<close> calls made
  so far; \<open>salts k\<close> is the string \<open>secrets.token_hex(8)\<close> returns if call number \<open>k\<close>
  draws one.
\<close>

record redaction =
  tok :: tokenizer
  redacted_text :: string
  token_mapping :: "(string \<times> string) list"
  calls :: nat

definition redact_match ::
  "(string \<Rightarrow> string) \<Rightarrow> (nat \<Rightarrow> string) \<Rightarrow> string \<Rightarrow> string \<Rightarrow> redaction \<Rightarrow> redaction" where
  "redact_match sha256 salts entity_type match st =
     (let (token, tk) = generate_token sha256 (salts (calls st)) (tok st) entity_type match
      in \<lparr>tok = tk,
          redacted_text = replace match token (redacted_text st),
          token_mapping = AList.update token match (token_mapping st),
          calls = Suc (calls st)\<rparr>)"

definition redact_entities ::
  "(string \<Rightarrow> string) \<Rightarrow> (nat \<Rightarrow> string) \<Rightarrow> string set \<Rightarrow> (string \<times> string list) list \<Rightarrow>
   redaction \<Rightarrow> redaction" where
  "redact_entities sha256 salts allowed entities_found st =
     fold (\<lambda>(entity_type, matches) st.
             if entity_type \<notin> allowed then fold (redact_match sha256 salts entity_type) matches st
             else st)
          entities_found st"

definition redact_document ::
  "(regex \<Rightarrow> string \<Rightarrow> string list) \<Rightarrow> (string list \<Rightarrow> string list) \<Rightarrow> (string \<Rightarrow> string) \<Rightarrow>
   (nat \<Rightarrow> string) \<Rightarrow> safe_disclosure \<Rightarrow> string \<Rightarrow> string \<Rightarrow> (string \<times> string list) list option \<Rightarrow>
   py_error + (string \<times> (string \<times> string) list) \<times> safe_disclosure" where
  "redact_document fa ord sha256 salts sd text target_role custom_entities =
     (case get_allowed_entities (role_manager sd) target_role of
        Inl e \<Rightarrow> Inl e
      | Inr allowed \<Rightarrow>
          (let entities_found = find_entities fa ord sd text custom_entities;
               st = redact_entities sha256 salts allowed entities_found
                      \<lparr>tok = tokenizer sd, redacted_text = text, token_mapping = [], calls = 0\<rparr>
           in Inr ((redacted_text st, token_mapping st), sd\<lparr>tokenizer := tok st\<rparr>)))"

definition restore_document ::
  "safe_disclosure \<Rightarrow> string \<Rightarrow> (string \<times> string) list \<Rightarrow> string \<Rightarrow> py_error + string" where
  "restore_document sd redacted token_map requester_role =
     (if \<not> can_restore (role_manager sd) requester_role then Inr redacted
      else (case get_allowed_entities (role_manager sd) requester_role of
              Inl e \<Rightarrow> Inl e
            | Inr allowed \<Rightarrow>
                Inr (fold (\<lambda>(token, original_value) restored_text.
                             if get_entity_type_from_token (tokenizer sd) token \<in> allowed
                             then replace token original_value restored_text
                             else restored_text)
                          token_map redacted)))"

section \<open>Sequences of mint calls and sample library functions\<close>

text \<open>
  A sequence of \<open>generate_token\<close> calls on one tokenizer, each call given as
  (salt, entity type, value); the result is the list of returned tokens and the final
  tokenizer.
\<close>

fun mint_all ::
  "(string \<Rightarrow> string) \<Rightarrow> tokenizer \<Rightarrow> (string \<times> string \<times> string) list \<Rightarrow> string list \<times> tokenizer" where
  "mint_all sha256 tk [] = ([], tk)"
| "mint_all sha256 tk ((salt, entity_type, entity_value) # rest) =
     (let (token, tk') = generate_token sha256 salt tk entity_type entity_value;
          (tokens, tk'') = mint_all sha256 tk' rest
      in (token # tokens, tk''))"

text \<open>
  \<open>collision_free\<close>: no call of the sequence builds a new token string that the tokenizer
  has already recorded for another value (the 12 digits kept of the digest do not
  collide).
\<close>

fun collision_free ::
  "(string \<Rightarrow> string) \<Rightarrow> tokenizer \<Rightarrow> (string \<times> string \<times> string) list \<Rightarrow> bool" where
  "collision_free sha256 tk [] = True"
| "collision_free sha256 tk ((salt, entity_type, entity_value) # rest) =
     (let (token, tk') = generate_token sha256 salt tk entity_type entity_value
      in (entity_tokens tk entity_value \<noteq> None \<or> token_entities tk token = None) \<and>
         collision_free sha256 tk' rest)"

text \<open>The entity type of the first call of a sequence that mints the value.\<close>

definition first_type :: "(string \<times> string \<times> string) list \<Rightarrow> string \<Rightarrow> string option" where
  "first_type calls' v = map_of (map (\<lambda>(salt, entity_type, entity_value). (entity_value, entity_type)) calls') v"

text \<open>
  What is known of \<open>hexdigest()\<close>: 64 characters, each a lower-case hexadecimal digit.
\<close>

definition hexdigits :: string where
  "hexdigits = ''0123456789abcdef''"

definition hexdigest :: "(string \<Rightarrow> string) \<Rightarrow> bool" where
  "hexdigest sha256 = (\<forall>s. length (sha256 s) = 64 \<and> set (sha256 s) \<subseteq> set hexdigits)"

text \<open>
  Concrete stand-ins for the library parameters, used where a statement is evaluated at
  a concrete input: a digest function with the shape of \<open>hexdigest()\<close> (it is not
  SHA-256), two salts, and the set order that keeps insertion order.
\<close>

definition sample_sha256 :: "string \<Rightarrow> string" where
  "sample_sha256 s = take 64 (filter (\<lambda>c. c \<in> set hexdigits) (rev s) @ replicate 64 (CHR ''0''))"

definition sample_salts :: "nat \<Rightarrow> string" where
  "sample_salts k = (if k = 0 then ''1f0a9c3e5b7d2468'' else ''9e8d7c6b5a4f3021'')"

definition insertion_order :: "string list \<Rightarrow> string list" where
  "insertion_order xs = xs"


text \<open>The text of the end-to-end scenario.\<close>

definition scenario_text :: string where
  "scenario_text = ''Hello John Doe, email john.doe@example.com, phone 555-123-4567.''"

text \<open>A sample sequence of mint calls: the third call mints the value of the first again.\<close>

definition sample_calls :: "(string \<times> string \<times> string) list" where
  "sample_calls =
     [(sample_salts 0, ''email'', ''a@b.co''), (sample_salts 1, ''phone'', ''555-123-4567''),
      (sample_salts 1, ''phone'', ''a@b.co'')]"

section \<open>Facts about the string functions\<close>

lemma split_not_Nil: "split sep s \<noteq> []"
  by (induction s) (auto split: list.splits)

lemma upper_ip_address: "upper ''ip_address'' = ''IP_ADDRESS''"
  by (simp add: upper_def upper_char_def ascii_lowercase_def ascii_uppercase_def)


section \<open>Facts about the tokenizer\<close>

lemma generate_token_known:
  "entity_tokens tk v = Some t \<Longrightarrow> generate_token sha256 salt tk ty v = (t, tk)"
  by (simp add: generate_token_def)

lemma generate_token_records:
  "generate_token sha256 salt tk ty v = (t, tk') \<Longrightarrow> entity_tokens tk' v = Some t"
  by (auto simp: generate_token_def Let_def split: option.splits)

lemma generate_token_keeps:
  "entity_tokens tk w = Some u \<Longrightarrow> generate_token sha256 salt tk ty v = (t, tk') \<Longrightarrow>
   entity_tokens tk' w = Some u"
  by (auto simp: generate_token_def Let_def split: option.splits)

lemma mint_all_keeps:
  "entity_tokens tk w = Some u \<Longrightarrow> mint_all sha256 tk cs = (ts, tk') \<Longrightarrow>
   entity_tokens tk' w = Some u"
proof (induction cs arbitrary: tk ts)
  case Nil
  then show ?case by simp
next
  case (Cons c cs)
  obtain salt ty v where c: "c = (salt, ty, v)" by (cases c) auto
  obtain t tk1 where g: "generate_token sha256 salt tk ty v = (t, tk1)" by fastforce
  obtain ts1 tk2 where m: "mint_all sha256 tk1 cs = (ts1, tk2)" by fastforce
  from Cons.prems(2) c g m have "tk' = tk2" by simp
  moreover have "entity_tokens tk1 w = Some u"
    using generate_token_keeps [OF Cons.prems(1) g] .
  ultimately show ?case using Cons.IH m by blast
qed

text \<open>
  Claim C5. Within one tokenizer, once a call \<open>generate_token(ty1, v)\<close> has returned the
  token \<open>t\<close>, every later call \<open>generate_token(ty2, v)\<close> for the same value returns the
  same \<open>t\<close> and leaves the tokenizer as it is, whatever entity type \<open>ty2\<close> is passed and
  whatever other values were minted in between: reuse is keyed by the value alone.
\<close>

theorem generate_token_reuses_by_value:
  assumes "generate_token sha256 salt1 tk ty1 v = (t, tk1)"
    and "mint_all sha256 tk1 cs = (ts, tk2)"
  shows "generate_token sha256 salt2 tk2 ty2 v = (t, tk2)"
proof -
  have "entity_tokens tk1 v = Some t"
    using assms(1) by (rule generate_token_records)
  then have "entity_tokens tk2 v = Some t"
    using assms(2) by (rule mint_all_keeps)
  then show ?thesis by (rule generate_token_known)
qed

lemmas sample_eval = sample_sha256_def sample_salts_def hexdigits_def generate_token_def
  Tokenizer_def upper_def upper_char_def ascii_lowercase_def ascii_uppercase_def Let_def

theorem generate_token_reuses_by_value_witness:
  "fst (generate_token sample_sha256 (sample_salts 0) (Tokenizer ''TOKEN_'') ''email'' ''a@b.co'')
     = ''TOKEN_EMAIL_8642d7b5e3c9'' \<and>
   fst (mint_all sample_sha256
          (snd (generate_token sample_sha256 (sample_salts 0) (Tokenizer ''TOKEN_'') ''email'' ''a@b.co''))
          [(sample_salts 1, ''phone'', ''555-123-4567'')])
     = [''TOKEN_PHONE_1203f4a5b6c7''] \<and>
   fst (generate_token sample_sha256 (sample_salts 1)
          (snd (mint_all sample_sha256
             (snd (generate_token sample_sha256 (sample_salts 0) (Tokenizer ''TOKEN_'') ''email'' ''a@b.co''))
             [(sample_salts 1, ''phone'', ''555-123-4567'')]))
          ''phone'' ''a@b.co'')
     = ''TOKEN_EMAIL_8642d7b5e3c9''"
proof -
  have t: "fst (generate_token sample_sha256 (sample_salts 0) (Tokenizer ''TOKEN_'') ''email'' ''a@b.co'')
     = ''TOKEN_EMAIL_8642d7b5e3c9''"
    by (simp add: sample_eval)
  have ts: "fst (mint_all sample_sha256
          (snd (generate_token sample_sha256 (sample_salts 0) (Tokenizer ''TOKEN_'') ''email'' ''a@b.co''))
          [(sample_salts 1, ''phone'', ''555-123-4567'')])
     = [''TOKEN_PHONE_1203f4a5b6c7'']"
    by (simp add: sample_eval split_beta)
  have g: "generate_token sample_sha256 (sample_salts 0) (Tokenizer ''TOKEN_'') ''email'' ''a@b.co''
     = (''TOKEN_EMAIL_8642d7b5e3c9'',
        snd (generate_token sample_sha256 (sample_salts 0) (Tokenizer ''TOKEN_'') ''email'' ''a@b.co''))"
    using t by (simp add: prod_eq_iff)
  have m: "mint_all sample_sha256
          (snd (generate_token sample_sha256 (sample_salts 0) (Tokenizer ''TOKEN_'') ''email'' ''a@b.co''))
          [(sample_salts 1, ''phone'', ''555-123-4567'')]
     = (fst (mint_all sample_sha256
          (snd (generate_token sample_sha256 (sample_salts 0) (Tokenizer ''TOKEN_'') ''email'' ''a@b.co''))
          [(sample_salts 1, ''phone'', ''555-123-4567'')]),
        snd (mint_all sample_sha256
          (snd (generate_token sample_sha256 (sample_salts 0) (Tokenizer ''TOKEN_'') ''email'' ''a@b.co''))
          [(sample_salts 1, ''phone'', ''555-123-4567'')]))"
    by simp
  show ?thesis
    using t ts generate_token_reuses_by_value [OF g m, of "sample_salts 1" "''phone''"] by simp
qed



text \<open>
  Claim C2, the code at the failing input. A token minted for the built-in entity type
  \<open>ip_address\<close> has the type \<open>ip_address\<close> on the tokenizer that minted it, but on a fresh
  tokenizer, and on the same one after \<open>clear_tokens\<close>, parsing the token string yields
  \<open>ip\<close>: the parser splits at every underscore and keeps the first part.
\<close>

theorem get_entity_type_from_token_ip_address:
  "(case generate_token sha256 salt (Tokenizer ''TOKEN_'') ''ip_address'' v of
      (t, tk) \<Rightarrow>
        get_entity_type_from_token tk t = ''ip_address'' \<and>
        get_entity_type_from_token (Tokenizer ''TOKEN_'') t = ''ip'' \<and>
        get_entity_type_from_token (clear_tokens tk) t = ''ip'')"
proof -
  obtain p ps where sp:
    "split (CHR ''_'') (take 12 (sha256 (''ip_address'' @ '':'' @ v @ '':'' @ salt))) = p # ps"
    using split_not_Nil
    by (cases "split (CHR ''_'') (take 12 (sha256 (''ip_address'' @ '':'' @ v @ '':'' @ salt)))") auto
  show ?thesis
    using sp
    by (simp add: generate_token_def get_entity_type_from_token_def Tokenizer_def clear_tokens_def
        upper_ip_address Let_def lower_def lower_char_def ascii_lowercase_def ascii_uppercase_def)
qed

text \<open>
  Claim C10. The level table maps public, internal, manager, admin and security to 0, 1,
  2, 3 and 4; any other name gets the default of the lookup, which is -1 for the
  requester and 0 for the target; \<open>role_hierarchy_check\<close> is true exactly when the
  requester's level is at least the target's, so a requester outside the five names is
  refused for every target.
\<close>

theorem role_hierarchy_check_levels:
  "dict_get role_levels ''public'' d = 0 \<and> dict_get role_levels ''internal'' d = 1 \<and>
   dict_get role_levels ''manager'' d = 2 \<and> dict_get role_levels ''admin'' d = 3 \<and>
   dict_get role_levels ''security'' d = 4 \<and>
   (r \<notin> {''public'', ''internal'', ''manager'', ''admin'', ''security''} \<longrightarrow>
      dict_get role_levels r d = d) \<and>
   role_hierarchy_check requester target =
     (dict_get role_levels requester (- 1) \<ge> dict_get role_levels target 0) \<and>
   (requester \<notin> {''public'', ''internal'', ''manager'', ''admin'', ''security''} \<longrightarrow>
      \<not> role_hierarchy_check requester target)"
proof -
  have "0 \<le> dict_get role_levels target 0"
    by (simp add: dict_get_def role_levels_def)
  moreover have "requester \<notin> {''public'', ''internal'', ''manager'', ''admin'', ''security''} \<Longrightarrow>
      dict_get role_levels requester (- 1) = - 1"
    by (simp add: dict_get_def role_levels_def)
  ultimately show ?thesis
    by (simp add: dict_get_def role_levels_def role_hierarchy_check_def Let_def)
qed

theorem role_hierarchy_check_levels_witness:
  "''guest'' \<notin> {''public'', ''internal'', ''manager'', ''admin'', ''security''} \<and>
   dict_get role_levels ''guest'' (- 1) = - 1 \<and>
   \<not> role_hierarchy_check ''guest'' ''public'' \<and>
   role_hierarchy_check ''admin'' ''manager'' \<and> \<not> role_hierarchy_check ''internal'' ''manager''"
  using role_hierarchy_check_levels [of "- 1" "''guest''" "''guest''" "''public''"]
    role_hierarchy_check_levels [of 0 "''guest''" "''admin''" "''manager''"]
    role_hierarchy_check_levels [of 0 "''guest''" "''internal''" "''manager''"]
  by simp

section \<open>Facts about detection\<close>

lemma set_order_set: "set_order ord \<Longrightarrow> set (ord xs) = set xs"
  unfolding set_order_def by (metis mset_eq_setD)

lemma set_order_Nil: "set_order ord \<Longrightarrow> ord xs = [] \<longleftrightarrow> xs = []"
  unfolding set_order_def by (metis mset_zero_iff)

lemma set_order_single: "set_order ord \<Longrightarrow> ord [x] = [x]"
  unfolding set_order_def by (metis mset_single_iff_right mset.simps)

lemma set_py_set: "set_order ord \<Longrightarrow> set (py_set ord xs) = set xs"
  by (simp add: py_set_def set_order_set)

lemma py_set_Nil: "set_order ord \<Longrightarrow> py_set ord xs = [] \<longleftrightarrow> xs = []"
  by (simp add: py_set_def set_order_Nil)

lemma find_pattern_entities_sets:
  assumes "set_order ord1" and "set_order ord2"
    and "\<And>ty. map_option set (map_of f1 ty) = map_option set (map_of f2 ty)"
  shows "map_option set (map_of (find_pattern_entities fa ord1 text pats f1) ty) =
         map_option set (map_of (find_pattern_entities fa ord2 text pats f2) ty)"
  using assms(3)
proof (induction pats arbitrary: f1 f2)
  case Nil
  then show ?case by (simp add: find_pattern_entities_def)
next
  case (Cons p pats)
  obtain k r where p: "p = (k, r)" by (cases p)
  let ?g1 = "if py_set ord1 (fa r text) \<noteq> [] then AList.update k (py_set ord1 (fa r text)) f1 else f1"
  let ?g2 = "if py_set ord2 (fa r text) \<noteq> [] then AList.update k (py_set ord2 (fa r text)) f2 else f2"
  have "\<And>ty. map_option set (map_of ?g1 ty) = map_option set (map_of ?g2 ty)"
    using Cons.prems assms(1,2) by (simp add: py_set_Nil set_py_set update_conv')
  then have "map_option set (map_of (find_pattern_entities fa ord1 text pats ?g1) ty) =
         map_option set (map_of (find_pattern_entities fa ord2 text pats ?g2) ty)"
    by (rule Cons.IH)
  then show ?case
    by (simp add: find_pattern_entities_def p Let_def)
qed

lemma find_custom_entities_sets:
  assumes "set_order ord1" and "set_order ord2"
    and "\<And>ty. map_option set (map_of f1 ty) = map_option set (map_of f2 ty)"
  shows "map_option set (map_of (find_custom_entities ord1 text custom f1) ty) =
         map_option set (map_of (find_custom_entities ord2 text custom f2) ty)"
  using assms(3)
proof (induction custom arbitrary: f1 f2)
  case Nil
  then show ?case by (simp add: find_custom_entities_def)
next
  case (Cons c custom)
  obtain k vs where c: "c = (k, vs)" by (cases c)
  let ?fc = "filter (\<lambda>entity. str_contains entity text) vs"
  let ?old1 = "case map_of f1 k of None \<Rightarrow> [] | Some ms \<Rightarrow> ms"
  let ?old2 = "case map_of f2 k of None \<Rightarrow> [] | Some ms \<Rightarrow> ms"
  let ?g1 = "if py_set ord1 ?fc \<noteq> [] then AList.update k (py_set ord1 (?old1 @ py_set ord1 ?fc)) f1 else f1"
  let ?g2 = "if py_set ord2 ?fc \<noteq> [] then AList.update k (py_set ord2 (?old2 @ py_set ord2 ?fc)) f2 else f2"
  have old: "set ?old1 = set ?old2"
    using Cons.prems [of k] by (cases "map_of f1 k"; cases "map_of f2 k") simp_all
  have "\<And>ty. map_option set (map_of ?g1 ty) = map_option set (map_of ?g2 ty)"
    using Cons.prems assms(1,2) old by (simp add: py_set_Nil set_py_set update_conv')
  then have "map_option set (map_of (find_custom_entities ord1 text custom ?g1) ty) =
         map_option set (map_of (find_custom_entities ord2 text custom ?g2) ty)"
    by (rule Cons.IH)
  then show ?case
    by (simp add: find_custom_entities_def c Let_def)
qed

text \<open>
  Claim C7. Detection is deterministic: for a fixed text, pattern registry and
  custom-entities input, two calls of \<open>_find_entities\<close> report, for every entity type, the
  same set of values (and report the type in both calls or in neither). The two calls
  may run on instances that differ in everything but the pattern registry (for instance
  in the tokenizer, which other calls have changed in between) and under different
  iteration orders of Python sets.
\<close>

theorem find_entities_deterministic:
  assumes "set_order ord1" and "set_order ord2"
    and "entity_patterns sd1 = entity_patterns sd2"
  shows "map_option set (map_of (find_entities fa ord1 sd1 text custom_entities) ty) =
         map_option set (map_of (find_entities fa ord2 sd2 text custom_entities) ty)"
proof -
  have pat: "\<And>ty. map_option set (map_of (find_pattern_entities fa ord1 text (entity_patterns sd1) []) ty) =
         map_option set (map_of (find_pattern_entities fa ord2 text (entity_patterns sd2) []) ty)"
    unfolding assms(3) by (rule find_pattern_entities_sets [OF assms(1,2)]) simp
  show ?thesis
  proof (cases custom_entities)
    case None
    then show ?thesis using pat by (simp add: find_entities_def)
  next
    case (Some custom)
    then show ?thesis
      using pat find_custom_entities_sets [OF assms(1,2) pat]
      by (simp add: find_entities_def Let_def)
  qed
qed




section \<open>Facts about redaction and restoration\<close>

lemma redact_entities_Nil: "redact_entities sha256 salts allowed [] st = st"
  by (simp add: redact_entities_def)

lemma redact_entities_Cons:
  "redact_entities sha256 salts allowed ((ty, ms) # found) st =
     redact_entities sha256 salts allowed found
       (if ty \<notin> allowed then fold (redact_match sha256 salts ty) ms st else st)"
  by (simp add: redact_entities_def)

lemma redact_entities_all_allowed:
  "fst ` set found \<subseteq> allowed \<Longrightarrow> redact_entities sha256 salts allowed found st = st"
proof (induction found)
  case Nil
  then show ?case by (simp add: redact_entities_Nil)
next
  case (Cons e found)
  obtain ty ms where e: "e = (ty, ms)" by (cases e)
  with Cons show ?case by (simp add: redact_entities_Cons)
qed

lemma security_allowed:
  "get_allowed_entities RoleManager ''security'' =
     Inr {''name'', ''email'', ''phone'', ''ip_address'', ''ssn'', ''credit_card''}"
  by (simp add: get_allowed_entities_def RoleManager_def load_default_roles_def mk_role_def)

lemma security_can_restore: "can_restore RoleManager ''security''"
  by (simp add: can_restore_def RoleManager_def load_default_roles_def mk_role_def)

text \<open>
  Claim C1. With the default role table, for every text in which only the six built-in
  entity types are detected, redacting for role \<open>security\<close> returns the text unchanged
  with an empty token map and leaves the instance as it is, and restoring that result
  with that token map for role \<open>security\<close> yields exactly the original text.
\<close>

theorem security_round_trip:
  assumes "role_manager sd = RoleManager"
    and "fst ` set (find_entities fa ord sd text custom_entities) \<subseteq>
           {''name'', ''email'', ''phone'', ''ip_address'', ''ssn'', ''credit_card''}"
  shows "redact_document fa ord sha256 salts sd text ''security'' custom_entities =
           Inr ((text, []), sd) \<and>
         (case redact_document fa ord sha256 salts sd text ''security'' custom_entities of
            Inl e \<Rightarrow> Inl e
          | Inr ((redacted, token_map), sd') \<Rightarrow> restore_document sd' redacted token_map ''security'')
           = Inr text"
proof -
  have red: "redact_document fa ord sha256 salts sd text ''security'' custom_entities =
           Inr ((text, []), sd)"
    using assms
    by (simp add: redact_document_def security_allowed Let_def redact_entities_all_allowed)
  have "restore_document sd text [] ''security'' = Inr text"
    using assms(1) by (simp add: restore_document_def security_can_restore security_allowed)
  with red show ?thesis by simp
qed

section \<open>Unknown roles\<close>







section \<open>The end-to-end scenario\<close>

lemmas regex_eval = findall_def lit_def in_class_def word_def digit_def space_def
  at_boundary_def Let_def

lemma scenario_email: "findall email_pattern scenario_text = [''john.doe@example.com'']"
  by (simp add: regex_eval scenario_text_def email_pattern_def)

lemma scenario_phone: "findall phone_pattern scenario_text = [''555-123-4567'']"
  by (simp add: regex_eval scenario_text_def phone_pattern_def)

lemma scenario_ssn: "findall ssn_pattern scenario_text = []"
  by (simp add: regex_eval scenario_text_def ssn_pattern_def)

lemma scenario_credit_card: "findall credit_card_pattern scenario_text = []"
  by (simp add: regex_eval scenario_text_def credit_card_pattern_def)

lemma scenario_ip_address: "findall ip_address_pattern scenario_text = []"
  by (simp add: regex_eval scenario_text_def ip_address_pattern_def)

lemma scenario_name: "findall name_pattern scenario_text = [''Hello John'']"
  by (simp add: regex_eval scenario_text_def name_pattern_def)

lemma py_set_single: "set_order ord \<Longrightarrow> py_set ord [x] = [x]"
  by (simp add: py_set_def set_order_single)

lemma py_set_empty: "set_order ord \<Longrightarrow> py_set ord [] = []"
  by (simp add: py_set_def set_order_Nil)

lemma scenario_entities:
  assumes "set_order ord"
  shows "find_entities findall ord SafeDisclosure scenario_text None =
    [(''email'', [''john.doe@example.com'']), (''phone'', [''555-123-4567'']),
     (''name'', [''Hello John''])]"
  using assms
  by (simp add: find_entities_def find_pattern_entities_def SafeDisclosure_def
      load_default_patterns_def scenario_email scenario_phone scenario_ssn scenario_credit_card
      scenario_ip_address scenario_name py_set_single py_set_empty)

lemma internal_allowed: "get_allowed_entities RoleManager ''internal'' = Inr {''name''}"
  by (simp add: get_allowed_entities_def RoleManager_def load_default_roles_def mk_role_def)

lemma upper_email: "upper ''email'' = ''EMAIL''"
  by (simp add: upper_def upper_char_def ascii_lowercase_def ascii_uppercase_def)

lemma upper_phone: "upper ''phone'' = ''PHONE''"
  by (simp add: upper_def upper_char_def ascii_lowercase_def ascii_uppercase_def)

lemma replace_scenario_email:
  "replace ''john.doe@example.com'' new scenario_text =
     ''Hello John Doe, email '' @ new @ '', phone 555-123-4567.''"
  by (simp add: replace_def scenario_text_def)

lemma length_12:
  assumes "length (h :: 'a list) = 12"
  obtains a1 a2 a3 a4 a5 a6 a7 a8 a9 a10 a11 a12
  where "h = [a1, a2, a3, a4, a5, a6, a7, a8, a9, a10, a11, a12]"
proof -
  from assms have "\<exists>a1 a2 a3 a4 a5 a6 a7 a8 a9 a10 a11 a12.
      h = [a1, a2, a3, a4, a5, a6, a7, a8, a9, a10, a11, a12]"
    by (simp add: eval_nat_numeral length_Suc_conv) blast
  with that show thesis by blast
qed

lemma hexdigit_not_dash: "c \<in> set hexdigits \<Longrightarrow> c \<noteq> CHR ''-''"
  by (auto simp: hexdigits_def)

lemma replace_scenario_phone:
  assumes "length h = 12" and "set h \<subseteq> set hexdigits"
  shows "replace ''555-123-4567'' new
           (''Hello John Doe, email TOKEN_EMAIL_'' @ h @ '', phone 555-123-4567.'') =
         ''Hello John Doe, email TOKEN_EMAIL_'' @ h @ '', phone '' @ new @ ''.''"
proof -
  from assms(1) obtain a1 a2 a3 a4 a5 a6 a7 a8 a9 a10 a11 a12
    where h: "h = [a1, a2, a3, a4, a5, a6, a7, a8, a9, a10, a11, a12]"
    by (rule length_12)
  have nd: "a4 \<noteq> CHR ''-''" "a5 \<noteq> CHR ''-''" "a6 \<noteq> CHR ''-''" "a7 \<noteq> CHR ''-''"
    "a8 \<noteq> CHR ''-''" "a9 \<noteq> CHR ''-''" "a10 \<noteq> CHR ''-''" "a11 \<noteq> CHR ''-''" "a12 \<noteq> CHR ''-''"
    using assms(2) unfolding h by (simp_all add: hexdigit_not_dash)
  have nd': "CHR ''-'' \<noteq> a4" "CHR ''-'' \<noteq> a5" "CHR ''-'' \<noteq> a6" "CHR ''-'' \<noteq> a7"
    "CHR ''-'' \<noteq> a8" "CHR ''-'' \<noteq> a9" "CHR ''-'' \<noteq> a10" "CHR ''-'' \<noteq> a11" "CHR ''-'' \<noteq> a12"
    using nd by blast+
  show ?thesis
    unfolding h by (simp add: replace_def nd nd')
qed

lemma hexdigest_take:
  assumes "hexdigest sha256"
  shows "length (take 12 (sha256 s)) = 12" and "set (take 12 (sha256 s)) \<subseteq> set hexdigits"
proof -
  from assms have l: "length (sha256 s) = 64" and h: "set (sha256 s) \<subseteq> set hexdigits"
    unfolding hexdigest_def by blast+
  from l show "length (take 12 (sha256 s)) = 12" by simp
  from h show "set (take 12 (sha256 s)) \<subseteq> set hexdigits"
    using set_take_subset [of 12 "sha256 s"] by blast
qed

text \<open>
  Claim C6. For the text \<open>Hello John Doe, email john.doe@example.com, phone 555-123-4567.\<close>
  redacted for role \<open>internal\<close> on a fresh instance with the default patterns and roles:
  the output is the text with the e-mail address replaced by \<open>TOKEN_EMAIL_\<close> and 12
  hexadecimal digits and the phone number replaced by \<open>TOKEN_PHONE_\<close> and 12 hexadecimal
  digits, \<open>John Doe\<close> is still in it, and the token map has exactly the two entries for
  these tokens. This holds for every iteration order of sets, every salt and every digest
  function that returns 64 hexadecimal digits.
\<close>

theorem scenario_internal:
  assumes "set_order ord" and "hexdigest sha256"
  shows "\<exists>e p redacted token_map sd'.
     redact_document findall ord sha256 salts SafeDisclosure scenario_text ''internal'' None =
       Inr ((redacted, token_map), sd') \<and>
     redacted = ''Hello John Doe, email TOKEN_EMAIL_'' @ e @ '', phone TOKEN_PHONE_'' @ p @ ''.'' \<and>
     token_map = [(''TOKEN_EMAIL_'' @ e, ''john.doe@example.com''),
                  (''TOKEN_PHONE_'' @ p, ''555-123-4567'')] \<and>
     length e = 12 \<and> set e \<subseteq> set hexdigits \<and> length p = 12 \<and> set p \<subseteq> set hexdigits \<and>
     str_contains ''John Doe'' redacted \<and> length token_map = 2"
proof -
  define e where "e = take 12 (sha256 (''email'' @ '':'' @ ''john.doe@example.com'' @ '':'' @ salts 0))"
  define p where "p = take 12 (sha256 (''phone'' @ '':'' @ ''555-123-4567'' @ '':'' @ salts (Suc 0)))"
  have e: "length e = 12" "set e \<subseteq> set hexdigits"
    unfolding e_def using hexdigest_take [OF assms(2)] by blast+
  have p: "length p = 12" "set p \<subseteq> set hexdigits"
    unfolding p_def using hexdigest_take [OF assms(2)] by blast+
  have r2: "replace ''555-123-4567'' (''TOKEN_PHONE_'' @ p)
              (''Hello John Doe, email '' @ (''TOKEN_EMAIL_'' @ e) @ '', phone 555-123-4567.'') =
            ''Hello John Doe, email TOKEN_EMAIL_'' @ e @ '', phone TOKEN_PHONE_'' @ p @ ''.''"
    using replace_scenario_phone [OF e, of "''TOKEN_PHONE_'' @ p"] by simp
  have allowed: "get_allowed_entities (role_manager SafeDisclosure) ''internal'' = Inr {''name''}"
    by (simp add: SafeDisclosure_def internal_allowed)
  have st: "redact_entities sha256 salts {''name''}
       [(''email'', [''john.doe@example.com'']), (''phone'', [''555-123-4567'']),
        (''name'', [''Hello John''])]
       \<lparr>tok = Tokenizer ''TOKEN_'', redacted_text = scenario_text, token_mapping = [], calls = 0\<rparr> =
     \<lparr>tok = (Tokenizer ''TOKEN_'')\<lparr>
                entity_tokens := [''john.doe@example.com'' \<mapsto> ''TOKEN_EMAIL_'' @ e,
                                  ''555-123-4567'' \<mapsto> ''TOKEN_PHONE_'' @ p],
                token_entities := [''TOKEN_EMAIL_'' @ e \<mapsto> (''email'', ''john.doe@example.com''),
                                   ''TOKEN_PHONE_'' @ p \<mapsto> (''phone'', ''555-123-4567'')]\<rparr>,
      redacted_text = ''Hello John Doe, email TOKEN_EMAIL_'' @ e @ '', phone TOKEN_PHONE_'' @ p @ ''.'',
      token_mapping = [(''TOKEN_EMAIL_'' @ e, ''john.doe@example.com''),
                       (''TOKEN_PHONE_'' @ p, ''555-123-4567'')],
      calls = Suc (Suc 0)\<rparr>"
    using r2 e_def [symmetric] p_def [symmetric]
    by (simp add: redact_entities_Cons redact_entities_Nil redact_match_def generate_token_def
        upper_email upper_phone replace_scenario_email Tokenizer_def Let_def)
  have red: "redact_document findall ord sha256 salts SafeDisclosure scenario_text ''internal'' None =
       Inr ((''Hello John Doe, email TOKEN_EMAIL_'' @ e @ '', phone TOKEN_PHONE_'' @ p @ ''.'',
             [(''TOKEN_EMAIL_'' @ e, ''john.doe@example.com''),
              (''TOKEN_PHONE_'' @ p, ''555-123-4567'')]),
            SafeDisclosure\<lparr>tokenizer :=
              (Tokenizer ''TOKEN_'')\<lparr>
                entity_tokens := [''john.doe@example.com'' \<mapsto> ''TOKEN_EMAIL_'' @ e,
                                  ''555-123-4567'' \<mapsto> ''TOKEN_PHONE_'' @ p],
                token_entities := [''TOKEN_EMAIL_'' @ e \<mapsto> (''email'', ''john.doe@example.com''),
                                   ''TOKEN_PHONE_'' @ p \<mapsto> (''phone'', ''555-123-4567'')]\<rparr>\<rparr>)"
    unfolding redact_document_def allowed scenario_entities [OF assms(1)]
    by (simp add: Let_def st [unfolded Tokenizer_def] SafeDisclosure_def Tokenizer_def)
  have c: "str_contains ''John Doe''
            (''Hello John Doe, email TOKEN_EMAIL_'' @ e @ '', phone TOKEN_PHONE_'' @ p @ ''.'')"
    by simp
  show ?thesis
    using red e p c by (intro exI conjI) (assumption | simp)+
qed

section \<open>The record kept of minted tokens\<close>

lemma generate_token_cases:
  assumes "generate_token sha256 salt tk ty v = (t, tk')"
  shows "(entity_tokens tk v = Some t \<and> tk' = tk) \<or>
         (entity_tokens tk v = None \<and>
          entity_tokens tk' = (entity_tokens tk)(v \<mapsto> t) \<and>
          token_entities tk' = (token_entities tk)(t \<mapsto> (ty, v)))"
  using assms by (auto simp: generate_token_def Let_def split: option.splits)

lemma generate_token_keeps_record:
  assumes "entity_tokens tk w = Some u" and "token_entities tk u = Some z"
    and "generate_token sha256 salt tk ty v = (t, tk')"
    and "entity_tokens tk v \<noteq> None \<or> token_entities tk t = None"
  shows "entity_tokens tk' w = Some u \<and> token_entities tk' u = Some z"
  using generate_token_cases [OF assms(3)] assms(1,2,4) by auto

lemma generate_token_consistent:
  assumes "\<forall>w u. entity_tokens tk w = Some u \<longrightarrow> (\<exists>ty'. token_entities tk u = Some (ty', w))"
    and "generate_token sha256 salt tk ty v = (t, tk')"
    and "entity_tokens tk v \<noteq> None \<or> token_entities tk t = None"
  shows "\<forall>w u. entity_tokens tk' w = Some u \<longrightarrow> (\<exists>ty'. token_entities tk' u = Some (ty', w))"
proof (intro allI impI)
  fix w u
  assume wu: "entity_tokens tk' w = Some u"
  from generate_token_cases [OF assms(2)]
  show "\<exists>ty'. token_entities tk' u = Some (ty', w)"
  proof
    assume "entity_tokens tk v = Some t \<and> tk' = tk"
    with assms(1) wu show ?thesis by simp
  next
    assume fresh: "entity_tokens tk v = None \<and>
          entity_tokens tk' = (entity_tokens tk)(v \<mapsto> t) \<and>
          token_entities tk' = (token_entities tk)(t \<mapsto> (ty, v))"
    with assms(3) have none: "token_entities tk t = None" by simp
    show ?thesis
    proof (cases "w = v")
      case True
      with fresh wu show ?thesis by simp
    next
      case False
      with fresh wu have "entity_tokens tk w = Some u" by simp
      with assms(1) obtain ty' where "token_entities tk u = Some (ty', w)" by blast
      with none fresh show ?thesis by auto
    qed
  qed
qed

lemma mint_all_keeps_record:
  assumes "entity_tokens tk0 w = Some u" and "token_entities tk0 u = Some z"
    and "collision_free sha256 tk0 cs" and "mint_all sha256 tk0 cs = (ts, tk)"
  shows "entity_tokens tk w = Some u \<and> token_entities tk u = Some z"
  using assms
proof (induction cs arbitrary: tk0 ts)
  case Nil
  then show ?case by simp
next
  case (Cons c cs)
  obtain salt ty v where c: "c = (salt, ty, v)" by (cases c)
  obtain t tk1 where g: "generate_token sha256 salt tk0 ty v = (t, tk1)" by fastforce
  obtain ts1 tk2 where m: "mint_all sha256 tk1 cs = (ts1, tk2)" by fastforce
  from Cons.prems(4) c g m have "tk = tk2" by simp
  with m have m': "mint_all sha256 tk1 cs = (ts1, tk)" by simp
  from Cons.prems(3) c g
  have ok: "entity_tokens tk0 v \<noteq> None \<or> token_entities tk0 t = None"
    and cf: "collision_free sha256 tk1 cs"
    by simp_all
  have "entity_tokens tk1 w = Some u \<and> token_entities tk1 u = Some z"
    using Cons.prems(1,2) g ok by (rule generate_token_keeps_record)
  then have "entity_tokens tk1 w = Some u" and "token_entities tk1 u = Some z"
    by simp_all
  then show ?case
    using cf m' by (rule Cons.IH)
qed

lemma first_type_Cons:
  "first_type ((salt, ty, v) # cs) w = (if w = v then Some ty else first_type cs w)"
  by (simp add: first_type_def)

lemma mint_all_recorded:
  assumes "\<forall>w u. entity_tokens tk0 w = Some u \<longrightarrow> (\<exists>ty'. token_entities tk0 u = Some (ty', w))"
    and "collision_free sha256 tk0 cs" and "mint_all sha256 tk0 cs = (ts, tk)"
    and "i < length cs" and "cs ! i = (salt, ty, v)"
  shows "\<exists>ty0. token_entities tk (ts ! i) = Some (ty0, v) \<and>
           (case entity_tokens tk0 v of
              Some t0 \<Rightarrow> token_entities tk0 t0 = Some (ty0, v)
            | None \<Rightarrow> first_type cs v = Some ty0)"
  using assms
proof (induction cs arbitrary: tk0 ts i)
  case Nil
  then show ?case by simp
next
  case (Cons c cs)
  obtain salt' ty' v' where c: "c = (salt', ty', v')" by (cases c)
  obtain t tk1 where g: "generate_token sha256 salt' tk0 ty' v' = (t, tk1)" by fastforce
  obtain ts1 tk2 where m: "mint_all sha256 tk1 cs = (ts1, tk2)" by fastforce
  from Cons.prems(3) c g m have tk: "tk2 = tk" and ts: "ts = t # ts1" by simp_all
  note m = m [unfolded tk]
  from Cons.prems(2) c g
  have ok: "entity_tokens tk0 v' \<noteq> None \<or> token_entities tk0 t = None"
    and cf: "collision_free sha256 tk1 cs"
    by simp_all
  have inv1: "\<forall>w u. entity_tokens tk1 w = Some u \<longrightarrow> (\<exists>ty'. token_entities tk1 u = Some (ty', w))"
    using Cons.prems(1) g ok by (rule generate_token_consistent)
  have rec1: "entity_tokens tk1 v' = Some t"
    using g by (rule generate_token_records)
  show ?case
  proof (cases i)
    case 0
    with Cons.prems(5) c have eq: "salt' = salt" "ty' = ty" "v' = v" by simp_all
    from inv1 rec1 obtain ty0 where ty0: "token_entities tk1 t = Some (ty0, v)"
      unfolding eq by blast
    have "entity_tokens tk v = Some t \<and> token_entities tk t = Some (ty0, v)"
      using rec1 [unfolded eq] ty0 cf m by (rule mint_all_keeps_record)
    moreover have "case entity_tokens tk0 v of
              Some t0 \<Rightarrow> token_entities tk0 t0 = Some (ty0, v)
            | None \<Rightarrow> first_type (c # cs) v = Some ty0"
      using generate_token_cases [OF g] ty0 unfolding eq c
      by (auto simp: first_type_Cons split: option.splits)
    ultimately show ?thesis
      unfolding ts 0 by simp
  next
    case (Suc j)
    with Cons.prems(4,5) have j: "j < length cs" "cs ! j = (salt, ty, v)" by simp_all
    from Cons.IH [OF inv1 cf m j]
    obtain ty0 where ty0: "token_entities tk (ts1 ! j) = Some (ty0, v)"
      and old: "case entity_tokens tk1 v of
              Some t1 \<Rightarrow> token_entities tk1 t1 = Some (ty0, v)
            | None \<Rightarrow> first_type cs v = Some ty0"
      by blast
    have "case entity_tokens tk0 v of
              Some t0 \<Rightarrow> token_entities tk0 t0 = Some (ty0, v)
            | None \<Rightarrow> first_type (c # cs) v = Some ty0"
    proof (cases "entity_tokens tk0 v")
      case None
      show ?thesis
      proof (cases "v' = v")
        case True
        with generate_token_cases [OF g] None old show ?thesis
          unfolding c by (auto simp: first_type_Cons)
      next
        case False
        with generate_token_cases [OF g] None old show ?thesis
          unfolding c by (auto simp: first_type_Cons)
      qed
    next
      case (Some t0)
      with Cons.prems(1) obtain tyA where a: "token_entities tk0 t0 = Some (tyA, v)" by blast
      have "entity_tokens tk1 v = Some t0 \<and> token_entities tk1 t0 = Some (tyA, v)"
        using Some a g ok by (rule generate_token_keeps_record)
      with old have "tyA = ty0" by simp
      with Some a show ?thesis by simp
    qed
    with ty0 show ?thesis
      unfolding ts Suc by simp
  qed
qed

text \<open>
  Claim C4, as amended. For every sequence of mint calls on a fresh tokenizer in which
  no newly built token string collides with a recorded one, and for every call
  \<open>generate_token(ty, v)\<close> of the sequence with returned token \<open>t\<close>: at the end of the
  sequence \<open>get_original_value(t)\<close> is \<open>v\<close>, and \<open>get_entity_type_from_token(t)\<close> is the
  entity type passed to the first call of the sequence that minted \<open>v\<close>, which is \<open>ty\<close>
  when no earlier call had the value \<open>v\<close>.
\<close>

theorem mint_record_matches_first_mint:
  assumes "collision_free sha256 (Tokenizer prefix') cs"
    and "mint_all sha256 (Tokenizer prefix') cs = (ts, tk)"
    and "i < length cs" and "cs ! i = (salt, ty, v)"
  shows "get_original_value tk (ts ! i) = v \<and>
         first_type cs v = Some (get_entity_type_from_token tk (ts ! i)) \<and>
         ((\<forall>j < i. snd (snd (cs ! j)) \<noteq> v) \<longrightarrow> get_entity_type_from_token tk (ts ! i) = ty)"
proof -
  have inv: "\<forall>w u. entity_tokens (Tokenizer prefix') w = Some u \<longrightarrow>
               (\<exists>ty'. token_entities (Tokenizer prefix') u = Some (ty', w))"
    by (simp add: Tokenizer_def)
  from mint_all_recorded [OF inv assms]
  obtain ty0 where rec: "token_entities tk (ts ! i) = Some (ty0, v)"
    and first: "first_type cs v = Some ty0"
    by (auto simp: Tokenizer_def)
  have "ty0 = ty" if "\<forall>j < i. snd (snd (cs ! j)) \<noteq> v"
  proof -
    have "first_type cs v = Some ty"
      using that assms(3,4)
    proof (induction cs arbitrary: i)
      case Nil
      then show ?case by simp
    next
      case (Cons c cs)
      obtain salt' ty' v' where c: "c = (salt', ty', v')" by (cases c)
      show ?case
      proof (cases i)
        case 0
        with Cons.prems c show ?thesis by (simp add: first_type_Cons)
      next
        case (Suc k)
        from Cons.prems(1) Suc have "snd (snd ((c # cs) ! 0)) \<noteq> v" by blast
        then have ne: "v' \<noteq> v" by (simp add: c)
        have "\<forall>j<k. snd (snd (cs ! j)) \<noteq> v"
        proof (intro allI impI)
          fix j assume "j < k"
          then have "Suc j < i" using Suc by simp
          with Cons.prems(1) have "snd (snd ((c # cs) ! Suc j)) \<noteq> v" by blast
          then show "snd (snd (cs ! j)) \<noteq> v" by simp
        qed
        moreover from Cons.prems(2,3) Suc have "k < length cs" "cs ! k = (salt, ty, v)" by simp_all
        ultimately have "first_type cs v = Some ty" by (rule Cons.IH)
        with ne show ?thesis by (simp add: c first_type_Cons)
      qed
    qed
    with first show ?thesis by simp
  qed
  with rec first show ?thesis
    by (simp add: get_original_value_def get_entity_type_from_token_def)
qed

section \<open>The empty string as a custom entity value\<close>






section \<open>The claims at concrete inputs\<close>

text \<open>
  The theorems above are applied here at concrete inputs, with \<open>findall\<close> for
  \<open>re.findall\<close>, and with \<open>insertion_order\<close>, \<open>sample_sha256\<close> and \<open>sample_salts\<close> for the
  library parameters. \<open>sample_sha256\<close> is not SHA-256, so the hexadecimal digits of the
  tokens below are not the ones a run of the program prints; nothing stated about them
  depends on the digits.
\<close>

lemma set_order_insertion_order: "set_order insertion_order"
  by (simp add: set_order_def insertion_order_def)

lemma set_order_rev: "set_order rev"
  by (simp add: set_order_def)

lemma hexdigest_sample_sha256: "hexdigest sample_sha256"
  unfolding hexdigest_def
proof (intro allI conjI)
  fix s
  show "length (sample_sha256 s) = 64"
    by (simp add: sample_sha256_def)
  have "set (sample_sha256 s) \<subseteq>
        set (filter (\<lambda>c. c \<in> set hexdigits) (rev s) @ replicate 64 (CHR ''0''))"
    unfolding sample_sha256_def by (rule set_take_subset)
  also have "\<dots> \<subseteq> set hexdigits"
    by (auto simp: hexdigits_def)
  finally show "set (sample_sha256 s) \<subseteq> set hexdigits" .
qed

lemmas pattern_defs = email_pattern_def phone_pattern_def ssn_pattern_def credit_card_pattern_def
  ip_address_pattern_def name_pattern_def

lemma short_patterns:
  "findall email_pattern ''a@b.co'' = [''a@b.co'']"
  "findall phone_pattern ''a@b.co'' = []"
  "findall ssn_pattern ''a@b.co'' = []"
  "findall credit_card_pattern ''a@b.co'' = []"
  "findall ip_address_pattern ''a@b.co'' = []"
  "findall name_pattern ''a@b.co'' = []"
  by (simp_all add: regex_eval pattern_defs)

lemma short_entities:
  "find_pattern_entities findall insertion_order ''a@b.co'' load_default_patterns [] =
     [(''email'', [''a@b.co''])]"
  by (simp add: find_pattern_entities_def load_default_patterns_def short_patterns
      py_set_def insertion_order_def)

theorem security_round_trip_witness:
  "role_manager SafeDisclosure = RoleManager \<and>
   fst ` set (find_entities findall insertion_order SafeDisclosure ''a@b.co'' None) \<subseteq>
     {''name'', ''email'', ''phone'', ''ip_address'', ''ssn'', ''credit_card''} \<and>
   redact_document findall insertion_order sample_sha256 sample_salts SafeDisclosure ''a@b.co''
     ''security'' None = Inr ((''a@b.co'', []), SafeDisclosure) \<and>
   (case redact_document findall insertion_order sample_sha256 sample_salts SafeDisclosure
           ''a@b.co'' ''security'' None of
      Inl e \<Rightarrow> Inl e
    | Inr ((redacted, token_map), sd') \<Rightarrow> restore_document sd' redacted token_map ''security'')
     = Inr ''a@b.co''"
proof -
  have h1: "role_manager SafeDisclosure = RoleManager"
    by (simp add: SafeDisclosure_def)
  have h2: "fst ` set (find_entities findall insertion_order SafeDisclosure ''a@b.co'' None) \<subseteq>
     {''name'', ''email'', ''phone'', ''ip_address'', ''ssn'', ''credit_card''}"
    by (simp add: find_entities_def SafeDisclosure_def short_entities)
  show ?thesis
    using h1 h2 security_round_trip [OF h1 h2, of sample_sha256 sample_salts] by blast
qed


theorem find_entities_deterministic_witness:
  "set_order insertion_order \<and> set_order rev \<and>
   entity_patterns SafeDisclosure =
     entity_patterns (SafeDisclosure\<lparr>tokenizer := Tokenizer ''T_''\<rparr>) \<and>
   map_option set (map_of (find_entities findall insertion_order SafeDisclosure ''a@b.co''
       (Some [(''x'', [''b'', ''a'', ''zz''])])) ''x'') = Some {''a'', ''b''} \<and>
   map_option set (map_of (find_entities findall rev (SafeDisclosure\<lparr>tokenizer := Tokenizer ''T_''\<rparr>)
       ''a@b.co'' (Some [(''x'', [''b'', ''a'', ''zz''])])) ''x'') = Some {''a'', ''b''}"
proof -
  have h3: "entity_patterns SafeDisclosure =
     entity_patterns (SafeDisclosure\<lparr>tokenizer := Tokenizer ''T_''\<rparr>)"
    by simp
  have v: "map_option set (map_of (find_entities findall insertion_order SafeDisclosure ''a@b.co''
       (Some [(''x'', [''b'', ''a'', ''zz''])])) ''x'') = Some {''a'', ''b''}"
    by (simp add: find_entities_def SafeDisclosure_def short_entities find_custom_entities_def
        py_set_def insertion_order_def insert_commute)
  show ?thesis
    using set_order_insertion_order set_order_rev h3 v
      find_entities_deterministic [OF set_order_insertion_order set_order_rev h3,
        of findall "''a@b.co''" "Some [(''x'', [''b'', ''a'', ''zz''])]" "''x''"]
    by simp
qed

theorem scenario_internal_witness:
  "set_order insertion_order \<and> hexdigest sample_sha256 \<and>
   (\<exists>e p redacted token_map sd'.
     redact_document findall insertion_order sample_sha256 sample_salts SafeDisclosure
       scenario_text ''internal'' None = Inr ((redacted, token_map), sd') \<and>
     redacted = ''Hello John Doe, email TOKEN_EMAIL_'' @ e @ '', phone TOKEN_PHONE_'' @ p @ ''.'' \<and>
     token_map = [(''TOKEN_EMAIL_'' @ e, ''john.doe@example.com''),
                  (''TOKEN_PHONE_'' @ p, ''555-123-4567'')] \<and>
     length e = 12 \<and> set e \<subseteq> set hexdigits \<and> length p = 12 \<and> set p \<subseteq> set hexdigits \<and>
     str_contains ''John Doe'' redacted \<and> length token_map = 2)"
  using set_order_insertion_order hexdigest_sample_sha256
    scenario_internal [OF set_order_insertion_order hexdigest_sample_sha256, of sample_salts]
  by (intro conjI)

lemma sample_mints:
  "mint_all sample_sha256 (Tokenizer ''TOKEN_'') sample_calls =
     ([''TOKEN_EMAIL_8642d7b5e3c9'', ''TOKEN_PHONE_1203f4a5b6c7'', ''TOKEN_EMAIL_8642d7b5e3c9''],
      snd (mint_all sample_sha256 (Tokenizer ''TOKEN_'') sample_calls))"
  by (simp add: sample_calls_def sample_eval split_beta prod_eq_iff)

theorem mint_record_matches_first_mint_witness:
  "collision_free sample_sha256 (Tokenizer ''TOKEN_'') sample_calls \<and>
   2 < length sample_calls \<and>
   sample_calls ! 2 = (sample_salts 1, ''phone'', ''a@b.co'') \<and>
   get_original_value (snd (mint_all sample_sha256 (Tokenizer ''TOKEN_'') sample_calls))
     ''TOKEN_EMAIL_8642d7b5e3c9'' = ''a@b.co'' \<and>
   first_type sample_calls ''a@b.co'' = Some ''email'' \<and>
   get_entity_type_from_token (snd (mint_all sample_sha256 (Tokenizer ''TOKEN_'') sample_calls))
     ''TOKEN_EMAIL_8642d7b5e3c9'' = ''email''"
proof -
  have h1: "collision_free sample_sha256 (Tokenizer ''TOKEN_'') sample_calls"
    by (simp add: sample_calls_def sample_eval)
  have h3: "2 < length sample_calls"
    by (simp add: sample_calls_def)
  have h4: "sample_calls ! 2 = (sample_salts 1, ''phone'', ''a@b.co'')"
    by (simp add: sample_calls_def)
  have f: "first_type sample_calls ''a@b.co'' = Some ''email''"
    by (simp add: sample_calls_def first_type_def)
  show ?thesis
    using h1 h3 h4 f mint_record_matches_first_mint [OF h1 sample_mints h3 h4]
    by simp
qed

text \<open>
  Against claim C4 as stated: the second call passes the entity type \<open>phone\<close> for a value
  that the first call minted as \<open>email\<close>; it returns the token of the first call, and the
  type recorded for that token is \<open>email\<close>, not the \<open>phone\<close> of the call that returned it.
\<close>

theorem mint_record_counterexample:
  "(case mint_all sample_sha256 (Tokenizer ''TOKEN_'')
          [(sample_salts 0, ''email'', ''x''), (sample_salts 1, ''phone'', ''x'')] of
      (tokens, tk) \<Rightarrow>
        tokens ! 1 = ''TOKEN_EMAIL_8642d7b5e3c9'' \<and>
        get_entity_type_from_token tk (tokens ! 1) = ''email'' \<and>
        get_entity_type_from_token tk (tokens ! 1) \<noteq> ''phone'')"
  by (simp add: sample_eval split_beta get_entity_type_from_token_def)







end
